theory Spec2Isabelle
  imports Main "HOL-Library.Word"
begin

section \<open>The scraper of main.go, as a function from its environment to its trace\<close>

text \<open>
  The program is one \<open>main\<close> that calls the operating system, the clock and a browser
  driven through chromedp. Everything those collaborators answer is a field of the
  record \<open>env\<close>; everything the program does to them, prints or logs is an
  \<open>action\<close>, and \<open>main\<close> maps an environment to the list of actions of the run, in
  order. \<open>log.Fatal\<close> ends the run: the action \<open>Fatal\<close> is then the last one.
\<close>

subsection \<open>Values of the Go program\<close>

type_synonym error = string
  \<comment> \<open>a non-nil Go error, by its message; the Go pair (value, err) has \<open>error option\<close>\<close>

type_synonym int64 = "64 word"

type_synonym bytes = string

datatype URL = URL (Hostname: string)
  \<comment> \<open>the parsed URL, of which main reads \<open>Hostname()\<close> only\<close>

datatype resource_type =
    ResourceTypeDocument
  | ResourceTypeStylesheet
  | ResourceTypeImage
  | ResourceTypeScript
  | ResourceTypeXHR
  | ResourceTypeOther

datatype event =
    EventResponseReceived resource_type int64 string
      \<comment> \<open>\<open>ev.Type\<close>, \<open>ev.Response.Status\<close>, \<open>ev.Response.StatusText\<close>\<close>
  | EventOther

subsection \<open>Values of the script that runs in the page\<close>

datatype js_value =
    JSUndefined
  | JSNull
  | JSBoolean bool
  | JSNumber int
  | JSString string
  | JSFunction
  | JSObject "(string \<times> js_value) list"

fun js_typeof :: "js_value \<Rightarrow> string" where
  "js_typeof JSUndefined = ''undefined''"
| "js_typeof JSNull = ''object''"
| "js_typeof (JSBoolean b) = ''boolean''"
| "js_typeof (JSNumber n) = ''number''"
| "js_typeof (JSString s) = ''string''"
| "js_typeof JSFunction = ''function''"
| "js_typeof (JSObject ps) = ''object''"

fun js_get :: "js_value \<Rightarrow> string \<Rightarrow> js_value" where
  "js_get (JSObject ps) k = (case map_of ps k of None \<Rightarrow> JSUndefined | Some v \<Rightarrow> v)"
| "js_get v k = JSUndefined"

fun js_string_val :: "js_value \<Rightarrow> string" where
  "js_string_val (JSString s) = s"
| "js_string_val v = []"

subsection \<open>The environment and the actions\<close>

record env =
  os_Args :: "string list"
  url_Parse :: "string \<Rightarrow> error + URL"
  time_Now_Format :: string
    \<comment> \<open>\<open>time.Now().Format("2006-01-02_15-04-05")\<close>\<close>
  os_MkdirAll :: "string \<Rightarrow> error option"
  chromedp_Navigate :: "nat \<Rightarrow> string \<Rightarrow> event list \<times> error option"
    \<comment> \<open>the n-th \<open>chromedp.Run(ctx, chromedp.Navigate(url))\<close> of the run: the events the
        listener receives while it runs, and its error\<close>
  chromedp_OuterHTML :: "string \<times> error option"
  chromedp_FullScreenshot :: "bytes \<times> error option"
  page_anchors :: "js_value list"
    \<comment> \<open>the value of \<open>a.href\<close> for each element of \<open>document.querySelectorAll('a')\<close>,
        in document order\<close>
  chromedp_Evaluate_err :: "error option"
  JSON_stringify :: "js_value list \<Rightarrow> string"
  json_Unmarshal :: "string \<Rightarrow> string list option \<times> error option"
    \<comment> \<open>\<open>json.Unmarshal([]byte(s), &links)\<close>: the value left in \<open>links\<close> (\<open>None\<close> is the
        nil slice) and the error\<close>
  os_WriteFile :: "string \<Rightarrow> bytes \<Rightarrow> error option"

datatype action =
    Stdout string
  | Log string
  | Fatal string
  | MkdirAll string "error option"
  | NewContext
  | Navigate string
  | OuterHTML
  | FullScreenshot
  | Evaluate
  | WriteFile string bytes "error option"

subsection \<open>Library functions the program calls\<close>

fun show_nat :: "nat \<Rightarrow> string" where
  "show_nat n =
     (if n < 10 then [''0123456789'' ! n]
      else show_nat (n div 10) @ [''0123456789'' ! (n mod 10)])"

declare show_nat.simps [simp del]

definition show_int :: "int \<Rightarrow> string" where
  \<comment> \<open>the verb \<open>%d\<close>\<close>
  "show_int i = (if i < 0 then ''-'' @ show_nat (nat (- i)) else show_nat (nat i))"

definition strings_Join :: "string list \<Rightarrow> string \<Rightarrow> string" where
  \<comment> \<open>\<open>strings.Join\<close>: nothing for no element, the element for one, and otherwise the
      first element followed by separator and element for each further one\<close>
  "strings_Join elems sep =
     (case elems of
        [] \<Rightarrow> []
      | x # xs \<Rightarrow> foldl (\<lambda>b s. b @ sep @ s) x xs)"

definition filepath_Join :: "string list \<Rightarrow> string" where
  \<comment> \<open>\<open>filepath.Join\<close> on elements that hold no separator and are not \<open>.\<close> or \<open>..\<close>:
      empty elements are dropped and the others are separated by \<open>/\<close> (\<open>Clean\<close> then
      changes nothing)\<close>
  "filepath_Join elems = strings_Join (filter (\<lambda>s. s \<noteq> []) elems) ''/''"

definition slice_elems :: "'a list option \<Rightarrow> 'a list" where
  \<comment> \<open>the elements of a Go slice; the nil slice has none\<close>
  "slice_elems s = (case s of None \<Rightarrow> [] | Some xs \<Rightarrow> xs)"

subsection \<open>listNetworkRequests\<close>

definition listNetworkRequests :: "int64 \<Rightarrow> string \<Rightarrow> action list" where
  "listNetworkRequests code text =
     (if code = 0 then []
      else Stdout (''Request network: '' @ show_int (sint code) @ '' ('' @ text @ '')\<newline>'') #
        (if 200 \<le>s code \<and> code <s 300 then
           [Stdout ''Request SUCCESSFUL: Site is accessible.\<newline>'']
         else if 300 \<le>s code \<and> code <s 400 then
           [Stdout (''Request REDIRECTION ('' @ show_int (sint code) @
              ''): Site is redirecting to another address.\<newline>'')]
         else if code = 403 then
           [Log ''Request FORBIDDEN (403): Access denied (WAF or Bot Protection).\<newline>'']
         else if code = 404 then
           [Log ''Request NOT FOUND (404): Page does not exist.\<newline>'']
         else if 400 \<le>s code \<and> code <s 500 then
           [Log (''Request CLIENT ERROR ('' @ show_int (sint code) @ ''): '' @ text @ ''\<newline>'')]
         else if 500 \<le>s code then
           [Log (''Request SERVER ERROR ('' @ show_int (sint code) @
              ''): Target site is down or faulty.\<newline>'')]
         else
           [Log (''Request UNKNOWN STATUS: '' @ show_int (sint code) @ ''\<newline>'')]))"

subsection \<open>The response listener\<close>

fun listener :: "int64 \<times> string \<Rightarrow> event \<Rightarrow> int64 \<times> string" where
  "listener (statusCode, statusText) (EventResponseReceived ty status text) =
     (if ty = ResourceTypeDocument then (status, text) else (statusCode, statusText))"
| "listener (statusCode, statusText) EventOther = (statusCode, statusText)"

subsection \<open>contentRetrieval, captureScreenshot, extractLinks\<close>

definition contentRetrieval :: "env \<Rightarrow> action list \<times> string \<times> error option" where
  "contentRetrieval e =
     (let (htmlContent, err) = chromedp_OuterHTML e
      in (OuterHTML #
            (case err of
               Some er \<Rightarrow> [Log (''Error retrieving content: '' @ er)]
             | None \<Rightarrow> []),
          htmlContent, err))"

definition captureScreenshot :: "env \<Rightarrow> action list \<times> bytes \<times> error option" where
  "captureScreenshot e =
     (let (screenShotBuffer, err) = chromedp_FullScreenshot e
      in (FullScreenshot #
            (case err of
               Some er \<Rightarrow> [Log (''Error capturing screenshot: '' @ er)]
             | None \<Rightarrow> []),
          screenShotBuffer, err))"

definition href_of :: "js_value \<Rightarrow> js_value" where
  \<comment> \<open>the function given to \<open>map\<close>, applied to \<open>a.href\<close>\<close>
  "href_of h =
     (if js_typeof h = ''object'' \<and> h \<noteq> JSNull then js_get h ''baseVal'' else h)"

definition keep_href :: "js_value \<Rightarrow> bool" where
  \<comment> \<open>the function given to \<open>filter\<close>\<close>
  "keep_href href = (js_typeof href = ''string'' \<and> href \<noteq> JSString [])"

definition collected_hrefs :: "js_value list \<Rightarrow> js_value list" where
  "collected_hrefs anchors = filter keep_href (map href_of anchors)"

definition javascript :: "env \<Rightarrow> string" where
  \<comment> \<open>the value of the script in the loaded page\<close>
  "javascript e = JSON_stringify e (collected_hrefs (page_anchors e))"

definition extractLinks :: "env \<Rightarrow> action list \<times> string list option \<times> error option" where
  "extractLinks e =
     (case chromedp_Evaluate_err e of
        Some er \<Rightarrow> ([Evaluate], None, Some (''error extracting links: '' @ er))
      | None \<Rightarrow>
          (let jsonResult = javascript e;
               (links, err) = json_Unmarshal e jsonResult
           in case err of
                Some er \<Rightarrow> ([Evaluate], None, Some (''error unmarshaling JSON: '' @ er))
              | None \<Rightarrow> ([Evaluate], links, None)))"

subsection \<open>main\<close>

definition folderPath_of :: "string \<Rightarrow> string \<Rightarrow> string" where
  "folderPath_of timestamp hostname =
     filepath_Join [''scraped_data'', timestamp @ ''_'' @ hostname]"

definition save_html :: "env \<Rightarrow> string \<Rightarrow> action list" where
  \<comment> \<open>lines 108 to 122\<close>
  "save_html e folderPath =
     (let (acts, htmlData, err) = contentRetrieval e
      in acts @
         (case err of
            Some er \<Rightarrow> [Log (''Failed to retrieve content:  '' @ er @ ''\<newline>'')]
          | None \<Rightarrow>
              (let savePath = filepath_Join [folderPath, ''page.html'']
               in case os_WriteFile e savePath htmlData of
                    Some er \<Rightarrow>
                      [WriteFile savePath htmlData (Some er),
                       Log (''Failed to save HTML file:  '' @ er @ ''\<newline>'')]
                  | None \<Rightarrow>
                      [WriteFile savePath htmlData None,
                       Stdout (''HTML content saved to '' @ savePath @ ''\<newline>'')])))"

definition save_screenshot :: "env \<Rightarrow> string \<Rightarrow> action list" where
  \<comment> \<open>lines 124 to 135\<close>
  "save_screenshot e folderPath =
     (let (acts, imgData, err) = captureScreenshot e
      in acts @
         (case err of
            Some er \<Rightarrow> [Log (''Image fault:  '' @ er @ ''\<newline>'')]
          | None \<Rightarrow>
              (let savepath = filepath_Join [folderPath, ''screenshot.png'']
               in case os_WriteFile e savepath imgData of
                    Some er \<Rightarrow>
                      [WriteFile savepath imgData (Some er),
                       Log (''Failed to save screenshot:  '' @ er @ ''\<newline>'')]
                  | None \<Rightarrow>
                      [WriteFile savepath imgData None,
                       Stdout (''Screenshot saved to '' @ savepath @ ''\<newline>'')])))"

definition save_links :: "env \<Rightarrow> string \<Rightarrow> action list" where
  \<comment> \<open>lines 137 to 149\<close>
  "save_links e folderPath =
     (let (acts, links, err) = extractLinks e
      in acts @
         (case err of
            Some er \<Rightarrow> [Log (''Failed to extract links:  '' @ er @ ''\<newline>'')]
          | None \<Rightarrow>
              (let savepath = filepath_Join [folderPath, ''links.txt''];
                   linksContent = strings_Join (slice_elems links) ''\<newline>''
               in case os_WriteFile e savepath linksContent of
                    Some er \<Rightarrow>
                      [WriteFile savepath linksContent (Some er),
                       Log (''Failed to save links:  '' @ er @ ''\<newline>'')]
                  | None \<Rightarrow>
                      [WriteFile savepath linksContent None,
                       Stdout (''Links saved to '' @
                         show_int (int (length (slice_elems links))) @
                         '' links in '' @ savepath @ ''\<newline>'')])))"

definition extraction :: "env \<Rightarrow> string \<Rightarrow> action list" where
  "extraction e folderPath =
     save_html e folderPath @ save_screenshot e folderPath @ save_links e folderPath"

definition browse :: "env \<Rightarrow> string \<Rightarrow> string \<Rightarrow> action list" where
  \<comment> \<open>lines 56 to 149: the browser context, the two runs of Navigate, the extraction\<close>
  "browse e rawURL folderPath =
     NewContext #
     Stdout (''Targeting URL: '' @ rawURL @ ''\<newline>'') #
     (let (events, err) = chromedp_Navigate e 0 rawURL;
          (statusCode, statusText) = foldl listener (0, []) events
      in Navigate rawURL #
         listNetworkRequests statusCode statusText @
         (case err of
            Some er \<Rightarrow> [Fatal (''Failed to navigate: '' @ er)]
          | None \<Rightarrow>
              Navigate rawURL #
              (case snd (chromedp_Navigate e 1 rawURL) of
                 Some er \<Rightarrow> [Fatal (''Failed to navigate: '' @ er)]
               | None \<Rightarrow> extraction e folderPath)))"

definition main :: "env \<Rightarrow> action list" where
  "main e =
     (if length (os_Args e) < 2 then
        [Fatal ''Please provide a URL as a command-line argument.'']
      else
        (let rawURL = os_Args e ! 1
         in Stdout (''Navigating to URL: '' @ rawURL @ ''\<newline>'') #
            (case url_Parse e rawURL of
               Inl er \<Rightarrow> [Fatal (''Invalid URL: '' @ er)]
             | Inr parsedURL \<Rightarrow>
                 (let hostname = Hostname parsedURL;
                      timestamp = time_Now_Format e;
                      folderPath = folderPath_of timestamp hostname
                  in case os_MkdirAll e folderPath of
                       Some er \<Rightarrow>
                         [MkdirAll folderPath (Some er),
                          Fatal (''Failed to create directory: '' @ er)]
                     | None \<Rightarrow>
                         MkdirAll folderPath None #
                         Stdout (''The Registry folder is created.'' @ folderPath) #
                         browse e rawURL folderPath))))"

subsection \<open>What a trace shows\<close>

fun write_of :: "action \<Rightarrow> (string \<times> bytes) list" where
  "write_of (WriteFile p c r) = [(p, c)]"
| "write_of a = []"

definition writes :: "action list \<Rightarrow> (string \<times> bytes) list" where
  \<comment> \<open>the calls of \<open>os.WriteFile\<close>, in order: path and content\<close>
  "writes tr = concat (map write_of tr)"

fun written_of :: "action \<Rightarrow> (string \<times> bytes) list" where
  "written_of (WriteFile p c None) = [(p, c)]"
| "written_of a = []"

definition files_written :: "action list \<Rightarrow> (string \<times> bytes) list" where
  \<comment> \<open>the calls of \<open>os.WriteFile\<close> that returned no error\<close>
  "files_written tr = concat (map written_of tr)"

fun mkdir_of :: "action \<Rightarrow> string list" where
  "mkdir_of (MkdirAll p r) = [p]"
| "mkdir_of a = []"

definition mkdirs :: "action list \<Rightarrow> string list" where
  "mkdirs tr = concat (map mkdir_of tr)"

fun is_Fatal :: "action \<Rightarrow> bool" where
  "is_Fatal (Fatal m) = True"
| "is_Fatal a = False"

definition aborted :: "action list \<Rightarrow> bool" where
  \<comment> \<open>the run ended in \<open>log.Fatal\<close>\<close>
  "aborted tr = (tr \<noteq> [] \<and> is_Fatal (last tr))"

fun is_step :: "action \<Rightarrow> bool" where
  "is_step (Stdout s) = False"
| "is_step (Log s) = False"
| "is_step (Fatal s) = False"
| "is_step a = True"

definition steps :: "action list \<Rightarrow> action list" where
  \<comment> \<open>the trace without what is printed or logged\<close>
  "steps tr = filter is_step tr"

definition rawURL_of :: "env \<Rightarrow> string" where
  "rawURL_of e = os_Args e ! 1"

definition run_folder :: "env \<Rightarrow> string" where
  \<comment> \<open>the folder of a run whose URL parses\<close>
  "run_folder e =
     (case url_Parse e (rawURL_of e) of
        Inl er \<Rightarrow> []
      | Inr u \<Rightarrow> folderPath_of (time_Now_Format e) (Hostname u))"

definition reaches_browser :: "env \<Rightarrow> bool" where
  \<comment> \<open>an argument is given, it parses and the folder is made\<close>
  "reaches_browser e =
     (2 \<le> length (os_Args e) \<and>
      (case url_Parse e (rawURL_of e) of
         Inl er \<Rightarrow> False
       | Inr u \<Rightarrow> os_MkdirAll e (folderPath_of (time_Now_Format e) (Hostname u)) = None))"

definition navigation_ok :: "env \<Rightarrow> bool" where
  "navigation_ok e =
     (snd (chromedp_Navigate e 0 (rawURL_of e)) = None \<and>
      snd (chromedp_Navigate e 1 (rawURL_of e)) = None)"

definition extractions_ok :: "env \<Rightarrow> bool" where
  "extractions_ok e =
     (snd (chromedp_OuterHTML e) = None \<and>
      snd (chromedp_FullScreenshot e) = None \<and>
      snd (snd (extractLinks e)) = None)"

definition joined_by_newlines :: "string list \<Rightarrow> string" where
  \<comment> \<open>the strings in their order, one newline between each two neighbours\<close>
  "joined_by_newlines ls = concat (case ls of [] \<Rightarrow> [] | x # xs \<Rightarrow> x # map (\<lambda>s. ''\<newline>'' @ s) xs)"

fun is_document :: "event \<Rightarrow> bool" where
  "is_document (EventResponseReceived ty status text) = (ty = ResourceTypeDocument)"
| "is_document EventOther = False"

fun is_query :: "action \<Rightarrow> bool" where
  "is_query OuterHTML = True"
| "is_query FullScreenshot = True"
| "is_query Evaluate = True"
| "is_query a = False"

fun nonempty_string :: "js_value \<Rightarrow> string list" where
  "nonempty_string (JSString s) = (if s = [] then [] else [s])"
| "nonempty_string v = []"

definition nonempty_string_hrefs :: "js_value list \<Rightarrow> string list" where
  \<comment> \<open>the values that are strings and not the empty string, in their order\<close>
  "nonempty_string_hrefs vs = concat (map nonempty_string vs)"

subsection \<open>Concrete environments\<close>

definition example_anchors :: "js_value list" where
  "example_anchors =
     [JSString ''https://a.example/'',
      JSString [],
      JSObject [(''baseVal'', JSString ''https://b.example/x'')],
      JSObject [(''animVal'', JSString ''https://c.example/'')],
      JSObject [(''baseVal'', JSString [])],
      JSNull]"

definition example_stringify :: "js_value list \<Rightarrow> string" where
  \<comment> \<open>an array of strings without characters to escape, as JSON text\<close>
  "example_stringify vs =
     ''['' @ strings_Join (map (\<lambda>v. [CHR 0x22] @ js_string_val v @ [CHR 0x22]) vs) '','' @ '']''"

definition example_unmarshal :: "string \<Rightarrow> string list option \<times> error option" where
  "example_unmarshal s =
     (if s = example_stringify [JSString ''https://a.example/'', JSString ''https://b.example/x'']
      then (Some [''https://a.example/'', ''https://b.example/x''], None)
      else if s = ''[]'' then (Some [], None)
      else (None, Some ''invalid character''))"

definition env_ok :: env where
  "env_ok =
     \<lparr> os_Args = [''scrapper'', ''https://example.com/''],
       url_Parse = (\<lambda>s. if s = ''https://example.com/'' then Inr (URL ''example.com'')
                         else Inl ''parse error''),
       time_Now_Format = ''2024-01-02_03-04-05'',
       os_MkdirAll = (\<lambda>p. None),
       chromedp_Navigate =
         (\<lambda>n u. ([EventOther, EventResponseReceived ResourceTypeDocument 200 ''OK'',
                   EventResponseReceived ResourceTypeImage 404 ''Not Found''], None)),
       chromedp_OuterHTML = (''<html></html>'', None),
       chromedp_FullScreenshot = (''PNG'', None),
       page_anchors = example_anchors,
       chromedp_Evaluate_err = None,
       JSON_stringify = example_stringify,
       json_Unmarshal = example_unmarshal,
       os_WriteFile = (\<lambda>p c. None) \<rparr>"

definition env_html_fails :: env where
  \<comment> \<open>the page cannot be serialised and the script fails; the screenshot is taken\<close>
  "env_html_fails =
     env_ok \<lparr> chromedp_OuterHTML := ([], Some ''context deadline exceeded''),
              chromedp_Evaluate_err := Some ''exception in script'' \<rparr>"

definition env_nav_fails :: env where
  "env_nav_fails =
     env_ok \<lparr> chromedp_Navigate :=
       (\<lambda>n u. ([], Some ''page load error net::ERR_NAME_NOT_RESOLVED'')) \<rparr>"

definition env_disk_full :: env where
  \<comment> \<open>everything succeeds but the write of page.html\<close>
  "env_disk_full =
     env_ok \<lparr> os_WriteFile :=
       (\<lambda>p c. if p = ''scraped_data/2024-01-02_03-04-05_example.com/page.html''
              then Some ''no space left on device'' else None) \<rparr>"

definition env_extra_arg :: env where
  "env_extra_arg =
     env_ok \<lparr> os_Args := [''scrapper'', ''https://example.com/'', ''--verbose''] \<rparr>"

definition env_no_arg :: env where
  "env_no_arg = env_ok \<lparr> os_Args := [''scrapper''] \<rparr>"

definition env_bad_url :: env where
  "env_bad_url =
     env_ok \<lparr> os_Args := [''scrapper'', ''http://[::1''],
              url_Parse := (\<lambda>s. Inl ''missing ] in host'') \<rparr>"

definition env_bad_json :: env where
  \<comment> \<open>the script runs, and what it returns does not decode\<close>
  "env_bad_json =
     env_ok \<lparr> JSON_stringify := (\<lambda>vs. ''undefined'') \<rparr>"

section \<open>Properties\<close>

subsection \<open>Joining strings and paths\<close>

lemma foldl_sep: "foldl (\<lambda>b s. b @ sep @ s) x xs = x @ concat (map (\<lambda>s. sep @ s) xs)"
  by (induction xs arbitrary: x) simp_all

lemma strings_Join_Nil: "strings_Join [] sep = []"
  by (simp add: strings_Join_def)

lemma strings_Join_Cons: "strings_Join (x # xs) sep = x @ concat (map (\<lambda>s. sep @ s) xs)"
  by (simp add: strings_Join_def foldl_sep)

lemma filepath_Join_file:
  "f \<noteq> [] \<Longrightarrow> filepath_Join [fp, f] = (if fp = [] then f else fp @ ''/'' @ f)"
  by (simp add: filepath_Join_def strings_Join_Cons)

lemma folderPath_of_eq: "folderPath_of ts h = ''scraped_data/'' @ ts @ ''_'' @ h"
  by (simp add: folderPath_of_def filepath_Join_def strings_Join_Cons)

subsection \<open>The status code\<close>

lemma sint_403: "sint (code :: int64) = 403 \<longleftrightarrow> code = 403"
proof
  assume "sint code = 403"
  then have "sint code = sint (403 :: int64)" by simp
  then show "code = 403" by (rule signed_word_eqI)
qed simp

lemma sint_404: "sint (code :: int64) = 404 \<longleftrightarrow> code = 404"
proof
  assume "sint code = 404"
  then have "sint code = sint (404 :: int64)" by simp
  then show "code = 404" by (rule signed_word_eqI)
qed simp

lemma sint_zero: "sint (code :: int64) = 0 \<longleftrightarrow> code = 0"
  by (simp add: signed_eq_0_iff)

subsection \<open>The shape of a trace\<close>

lemma writes_append: "writes (xs @ ys) = writes xs @ writes ys"
  by (simp add: writes_def)

lemma writes_Cons: "writes (a # xs) = write_of a @ writes xs"
  by (simp add: writes_def)

lemma writes_Nil: "writes [] = []"
  by (simp add: writes_def)

lemma writes_listNetworkRequests: "writes (listNetworkRequests c t) = []"
  by (simp add: listNetworkRequests_def writes_Cons writes_Nil)

lemma fst_extractLinks: "fst (extractLinks e) = [Evaluate]"
  by (simp add: extractLinks_def Let_def split: prod.splits option.splits)

lemma writes_save_html:
  "writes (save_html e fp) =
     (if snd (chromedp_OuterHTML e) = None
      then [(filepath_Join [fp, ''page.html''], fst (chromedp_OuterHTML e))] else [])"
  by (simp add: save_html_def contentRetrieval_def writes_Cons writes_Nil writes_append Let_def
        split: prod.splits option.splits)

lemma writes_save_screenshot:
  "writes (save_screenshot e fp) =
     (if snd (chromedp_FullScreenshot e) = None
      then [(filepath_Join [fp, ''screenshot.png''], fst (chromedp_FullScreenshot e))] else [])"
  by (simp add: save_screenshot_def captureScreenshot_def writes_Cons writes_Nil writes_append Let_def
        split: prod.splits option.splits)

lemma writes_save_links:
  "writes (save_links e fp) =
     (if snd (snd (extractLinks e)) = None
      then [(filepath_Join [fp, ''links.txt''],
             strings_Join (slice_elems (fst (snd (extractLinks e)))) ''\<newline>'')] else [])"
  using fst_extractLinks [of e]
  by (cases "extractLinks e")
     (simp add: save_links_def writes_Cons writes_Nil writes_append Let_def
        split: prod.splits option.splits)

lemma writes_extraction:
  "writes (extraction e fp) =
     writes (save_html e fp) @ writes (save_screenshot e fp) @ writes (save_links e fp)"
  by (simp add: extraction_def writes_append)

lemma main_reaches:
  assumes "reaches_browser e"
  shows "main e =
     [Stdout (''Navigating to URL: '' @ rawURL_of e @ ''\<newline>''),
      MkdirAll (run_folder e) None,
      Stdout (''The Registry folder is created.'' @ run_folder e)] @
     browse e (rawURL_of e) (run_folder e)"
  using assms
  by (auto simp: reaches_browser_def main_def run_folder_def rawURL_of_def Let_def
        split: sum.splits option.splits)

lemma browse_ok:
  assumes "navigation_ok e"
  shows "browse e (rawURL_of e) fp =
     [NewContext, Stdout (''Targeting URL: '' @ rawURL_of e @ ''\<newline>''), Navigate (rawURL_of e)] @
     listNetworkRequests (fst (foldl listener (0, []) (fst (chromedp_Navigate e 0 (rawURL_of e)))))
       (snd (foldl listener (0, []) (fst (chromedp_Navigate e 0 (rawURL_of e))))) @
     [Navigate (rawURL_of e)] @ extraction e fp"
  using assms
  by (cases "chromedp_Navigate e 0 (rawURL_of e)")
     (simp add: navigation_ok_def browse_def Let_def split: prod.splits)

lemma browse_failed:
  assumes "\<not> navigation_ok e"
  shows "\<exists>n er. n < 2 \<and> browse e (rawURL_of e) fp =
     [NewContext, Stdout (''Targeting URL: '' @ rawURL_of e @ ''\<newline>''), Navigate (rawURL_of e)] @
     listNetworkRequests (fst (foldl listener (0, []) (fst (chromedp_Navigate e 0 (rawURL_of e)))))
       (snd (foldl listener (0, []) (fst (chromedp_Navigate e 0 (rawURL_of e))))) @
     replicate n (Navigate (rawURL_of e)) @ [Fatal (''Failed to navigate: '' @ er)]"
proof (cases "snd (chromedp_Navigate e 0 (rawURL_of e))")
  case None
  with assms obtain er where er: "snd (chromedp_Navigate e 1 (rawURL_of e)) = Some er"
    by (auto simp: navigation_ok_def)
  have "browse e (rawURL_of e) fp =
     [NewContext, Stdout (''Targeting URL: '' @ rawURL_of e @ ''\<newline>''), Navigate (rawURL_of e)] @
     listNetworkRequests (fst (foldl listener (0, []) (fst (chromedp_Navigate e 0 (rawURL_of e)))))
       (snd (foldl listener (0, []) (fst (chromedp_Navigate e 0 (rawURL_of e))))) @
     replicate 1 (Navigate (rawURL_of e)) @ [Fatal (''Failed to navigate: '' @ er)]"
    using None er
    by (cases "chromedp_Navigate e 0 (rawURL_of e)") (simp add: browse_def Let_def split: prod.splits)
  then show ?thesis by (intro exI [of _ 1] exI [of _ er]) simp
next
  case (Some er)
  have "browse e (rawURL_of e) fp =
     [NewContext, Stdout (''Targeting URL: '' @ rawURL_of e @ ''\<newline>''), Navigate (rawURL_of e)] @
     listNetworkRequests (fst (foldl listener (0, []) (fst (chromedp_Navigate e 0 (rawURL_of e)))))
       (snd (foldl listener (0, []) (fst (chromedp_Navigate e 0 (rawURL_of e))))) @
     replicate 0 (Navigate (rawURL_of e)) @ [Fatal (''Failed to navigate: '' @ er)]"
    using Some
    by (cases "chromedp_Navigate e 0 (rawURL_of e)") (simp add: browse_def Let_def split: prod.splits)
  then show ?thesis by (intro exI [of _ 0] exI [of _ er]) simp
qed

lemma writes_main:
  "writes (main e) =
     (if reaches_browser e \<and> navigation_ok e then writes (extraction e (run_folder e)) else [])"
proof (cases "reaches_browser e")
  case False
  then show ?thesis
    by (auto simp: reaches_browser_def main_def rawURL_of_def Let_def writes_Cons writes_Nil
          split: sum.splits option.splits)
next
  case True
  note r = main_reaches [OF True]
  show ?thesis
  proof (cases "navigation_ok e")
    case True
    show ?thesis
      using \<open>reaches_browser e\<close> True
      by (simp add: r browse_ok [OF True] writes_append writes_Cons writes_Nil
            writes_listNetworkRequests)
  next
    case False
    from browse_failed [OF False, of "run_folder e"] obtain n er where
      "browse e (rawURL_of e) (run_folder e) =
        [NewContext, Stdout (''Targeting URL: '' @ rawURL_of e @ ''\<newline>''), Navigate (rawURL_of e)] @
        listNetworkRequests (fst (foldl listener (0, []) (fst (chromedp_Navigate e 0 (rawURL_of e)))))
          (snd (foldl listener (0, []) (fst (chromedp_Navigate e 0 (rawURL_of e))))) @
        replicate n (Navigate (rawURL_of e)) @ [Fatal (''Failed to navigate: '' @ er)]"
      by blast
    moreover have "writes (replicate n (Navigate u)) = []" for u
      by (induction n) (simp_all add: writes_Cons writes_Nil)
    ultimately show ?thesis
      using False
      by (simp add: r writes_append writes_Cons writes_Nil writes_listNetworkRequests)
  qed
qed

lemma output_paths_distinct:
  "distinct [filepath_Join [fp, ''page.html''], filepath_Join [fp, ''screenshot.png''],
     filepath_Join [fp, ''links.txt'']]"
  by (simp add: filepath_Join_file)

lemma paths_extraction:
  "map fst (writes (extraction e fp)) =
     (if snd (chromedp_OuterHTML e) = None then [filepath_Join [fp, ''page.html'']] else []) @
     (if snd (chromedp_FullScreenshot e) = None then [filepath_Join [fp, ''screenshot.png'']] else []) @
     (if snd (snd (extractLinks e)) = None then [filepath_Join [fp, ''links.txt'']] else [])"
  by (simp add: writes_extraction writes_save_html writes_save_screenshot writes_save_links)

lemma paths_main:
  "map fst (writes (main e)) =
     (if reaches_browser e \<and> navigation_ok e
      then map fst (writes (extraction e (run_folder e))) else [])"
  by (simp add: writes_main)

lemma distinct_kept:
  "distinct [a, b, c] \<Longrightarrow>
   distinct ((if A then [a] else []) @ (if B then [b] else []) @ (if C then [c] else []))"
  by (cases A; cases B; cases C) simp_all

lemma queries_listNetworkRequests: "filter is_query (listNetworkRequests c t) = []"
  by (simp add: listNetworkRequests_def)

lemma queries_save_html: "filter is_query (save_html e fp) = [OuterHTML]"
  by (simp add: save_html_def contentRetrieval_def Let_def split: prod.splits option.splits)

lemma queries_save_screenshot: "filter is_query (save_screenshot e fp) = [FullScreenshot]"
  by (simp add: save_screenshot_def captureScreenshot_def Let_def split: prod.splits option.splits)

lemma queries_save_links: "filter is_query (save_links e fp) = [Evaluate]"
  using fst_extractLinks [of e]
  by (cases "extractLinks e") (simp add: save_links_def Let_def split: prod.splits option.splits)

lemma queries_extraction:
  "filter is_query (extraction e fp) = [OuterHTML, FullScreenshot, Evaluate]"
  by (simp add: extraction_def queries_save_html queries_save_screenshot queries_save_links)

lemma save_links_last: "save_links e fp \<noteq> [] \<and> \<not> is_Fatal (last (save_links e fp))"
  using fst_extractLinks [of e]
  by (cases "extractLinks e") (simp add: save_links_def Let_def split: prod.splits option.splits)

lemma extraction_last: "extraction e fp \<noteq> [] \<and> \<not> is_Fatal (last (extraction e fp))"
  using save_links_last [of e fp] by (simp add: extraction_def)

lemma log_save_html:
  "snd (chromedp_OuterHTML e) = Some er \<Longrightarrow>
   Log (''Failed to retrieve content:  '' @ er @ ''\<newline>'') \<in> set (save_html e fp)"
  by (cases "chromedp_OuterHTML e") (simp add: save_html_def contentRetrieval_def Let_def)

lemma log_save_screenshot:
  "snd (chromedp_FullScreenshot e) = Some er \<Longrightarrow>
   Log (''Image fault:  '' @ er @ ''\<newline>'') \<in> set (save_screenshot e fp)"
  by (cases "chromedp_FullScreenshot e") (simp add: save_screenshot_def captureScreenshot_def Let_def)

lemma log_save_links:
  "snd (snd (extractLinks e)) = Some er \<Longrightarrow>
   Log (''Failed to extract links:  '' @ er @ ''\<newline>'') \<in> set (save_links e fp)"
  by (cases "extractLinks e") (simp add: save_links_def Let_def)

lemma main_ok:
  assumes "reaches_browser e" and "navigation_ok e"
  shows "\<exists>pre. main e = pre @ extraction e (run_folder e) \<and> filter is_query pre = []"
proof -
  let ?pre = "[Stdout (''Navigating to URL: '' @ rawURL_of e @ ''\<newline>''),
      MkdirAll (run_folder e) None,
      Stdout (''The Registry folder is created.'' @ run_folder e),
      NewContext, Stdout (''Targeting URL: '' @ rawURL_of e @ ''\<newline>''), Navigate (rawURL_of e)] @
     listNetworkRequests (fst (foldl listener (0, []) (fst (chromedp_Navigate e 0 (rawURL_of e)))))
       (snd (foldl listener (0, []) (fst (chromedp_Navigate e 0 (rawURL_of e))))) @
     [Navigate (rawURL_of e)]"
  have "main e = ?pre @ extraction e (run_folder e)"
    by (simp add: main_reaches [OF assms(1)] browse_ok [OF assms(2)])
  moreover have "filter is_query ?pre = []"
    by (simp add: queries_listNetworkRequests)
  ultimately show ?thesis by blast
qed

lemma main_failed:
  assumes "reaches_browser e" and "\<not> navigation_ok e"
  shows "aborted (main e) \<and> filter is_query (main e) = []"
proof -
  from browse_failed [OF assms(2), of "run_folder e"] obtain n er where
      b: "browse e (rawURL_of e) (run_folder e) =
        [NewContext, Stdout (''Targeting URL: '' @ rawURL_of e @ ''\<newline>''), Navigate (rawURL_of e)] @
        listNetworkRequests (fst (foldl listener (0, []) (fst (chromedp_Navigate e 0 (rawURL_of e)))))
          (snd (foldl listener (0, []) (fst (chromedp_Navigate e 0 (rawURL_of e))))) @
        replicate n (Navigate (rawURL_of e)) @ [Fatal (''Failed to navigate: '' @ er)]"
    by blast
  have "filter is_query (replicate n (Navigate u)) = []" for u
    by (induction n) simp_all
  then show ?thesis
    by (simp add: main_reaches [OF assms(1)] b aborted_def queries_listNetworkRequests)
qed

lemma run_folder_nonempty: "reaches_browser e \<Longrightarrow> run_folder e \<noteq> []"
  by (auto simp: reaches_browser_def run_folder_def folderPath_of_eq split: sum.splits)

lemma listener_no_document:
  "list_all (\<lambda>ev. \<not> is_document ev) events \<Longrightarrow> foldl listener s events = s"
proof (induction events arbitrary: s)
  case Nil
  then show ?case by simp
next
  case (Cons ev events)
  then have "listener s ev = s"
    by (cases s; cases ev) simp_all
  with Cons show ?case by simp
qed

lemma strings_Join_newline: "strings_Join ls ''\<newline>'' = joined_by_newlines ls"
proof (cases ls)
  case Nil
  then show ?thesis by (simp add: strings_Join_Nil joined_by_newlines_def)
next
  case (Cons x xs)
  have "strings_Join (x # xs) ''\<newline>'' = x @ concat (map (\<lambda>s. ''\<newline>'' @ s) xs)"
    by (rule strings_Join_Cons)
  also have "\<dots> = joined_by_newlines (x # xs)"
    unfolding joined_by_newlines_def by (simp only: list.case concat.simps)
  finally show ?thesis using Cons by simp
qed

lemma mkdirs_listNetworkRequests: "mkdirs (listNetworkRequests c t) = []"
  by (simp add: listNetworkRequests_def mkdirs_def)

lemma mkdirs_save_html: "mkdirs (save_html e fp) = []"
  by (simp add: save_html_def contentRetrieval_def mkdirs_def Let_def
        split: prod.splits option.splits)

lemma mkdirs_save_screenshot: "mkdirs (save_screenshot e fp) = []"
  by (simp add: save_screenshot_def captureScreenshot_def mkdirs_def Let_def
        split: prod.splits option.splits)

lemma mkdirs_save_links: "mkdirs (save_links e fp) = []"
  using fst_extractLinks [of e]
  by (cases "extractLinks e")
     (simp add: save_links_def mkdirs_def Let_def split: prod.splits option.splits)

lemma mkdirs_append: "mkdirs (xs @ ys) = mkdirs xs @ mkdirs ys"
  by (simp add: mkdirs_def)

lemma mkdirs_main_ok:
  assumes "reaches_browser e" and "navigation_ok e"
  shows "mkdirs (main e) = [run_folder e]"
proof -
  have "mkdirs (extraction e (run_folder e)) = []"
    by (simp add: extraction_def mkdirs_append mkdirs_save_html mkdirs_save_screenshot
          mkdirs_save_links)
  moreover have "mkdirs [a] = mkdir_of a" for a
    by (simp add: mkdirs_def)
  moreover have "mkdirs (a # xs) = mkdir_of a @ mkdirs xs" for a xs
    by (simp add: mkdirs_def)
  ultimately show ?thesis
    by (simp add: main_reaches [OF assms(1)] browse_ok [OF assms(2)] mkdirs_append
          mkdirs_listNetworkRequests)
qed

lemma files_written_writes:
  assumes "\<And>p c r. WriteFile p c r \<in> set tr \<Longrightarrow> r = os_WriteFile e p c"
  shows "files_written tr = filter (\<lambda>(p, c). os_WriteFile e p c = None) (writes tr)"
  using assms
proof (induction tr)
  case Nil
  then show ?case by (simp add: files_written_def writes_def)
next
  case (Cons a tr)
  then have ih: "files_written tr = filter (\<lambda>(p, c). os_WriteFile e p c = None) (writes tr)"
    by simp
  have "written_of a = filter (\<lambda>(p, c). os_WriteFile e p c = None) (write_of a)"
  proof (cases a)
    case (WriteFile p c r)
    with Cons.prems [of p c r] have "r = os_WriteFile e p c" by simp
    with WriteFile show ?thesis by (cases r) auto
  qed simp_all
  with ih show ?case
    by (simp add: files_written_def writes_def)
qed

lemma results_listNetworkRequests: "WriteFile p c r \<notin> set (listNetworkRequests code t)"
  by (simp add: listNetworkRequests_def)

lemma results_save_html:
  "WriteFile p c r \<in> set (save_html e fp) \<Longrightarrow> r = os_WriteFile e p c"
  by (auto simp: save_html_def contentRetrieval_def Let_def split: prod.splits option.splits)

lemma results_save_screenshot:
  "WriteFile p c r \<in> set (save_screenshot e fp) \<Longrightarrow> r = os_WriteFile e p c"
  by (auto simp: save_screenshot_def captureScreenshot_def Let_def
        split: prod.splits option.splits)

lemma results_save_links:
  "WriteFile p c r \<in> set (save_links e fp) \<Longrightarrow> r = os_WriteFile e p c"
  using fst_extractLinks [of e]
  by (cases "extractLinks e")
     (auto simp: save_links_def Let_def split: prod.splits option.splits)

lemma writes_main_no:
  "\<not> (reaches_browser e \<and> navigation_ok e) \<Longrightarrow> writes (main e) = []"
  by (simp only: writes_main if_False)

lemma results_main:
  assumes "WriteFile p c r \<in> set (main e)"
  shows "r = os_WriteFile e p c"
proof (cases "reaches_browser e \<and> navigation_ok e")
  case True
  then have r: "reaches_browser e" and n: "navigation_ok e" by simp_all
  from assms have "WriteFile p c r \<in> set (extraction e (run_folder e))"
    by (simp add: main_reaches [OF r] browse_ok [OF n] results_listNetworkRequests)
  then show ?thesis
    using results_save_html results_save_screenshot results_save_links
    by (auto simp: extraction_def)
next
  case False
  then have "writes (main e) = []"
    by (rule writes_main_no)
  moreover from assms have "(p, c) \<in> set (writes (main e))"
    by (force simp: writes_def)
  ultimately show ?thesis by simp
qed

lemma extractLinks_args: "extractLinks (e\<lparr>os_Args := as\<rparr>) = extractLinks e"
  by (simp add: extractLinks_def javascript_def
        cong: option.case_cong prod.case_cong)

lemma save_html_args: "save_html (e\<lparr>os_Args := as\<rparr>) fp = save_html e fp"
  by (simp add: save_html_def contentRetrieval_def Let_def
        cong: option.case_cong prod.case_cong)

lemma save_screenshot_args: "save_screenshot (e\<lparr>os_Args := as\<rparr>) fp = save_screenshot e fp"
  by (simp add: save_screenshot_def captureScreenshot_def Let_def
        cong: option.case_cong prod.case_cong)

lemma save_links_args: "save_links (e\<lparr>os_Args := as\<rparr>) fp = save_links e fp"
  by (simp add: save_links_def extractLinks_args Let_def
        cong: option.case_cong prod.case_cong)

lemma browse_args: "browse (e\<lparr>os_Args := as\<rparr>) u fp = browse e u fp"
  by (simp add: browse_def extraction_def save_html_args save_screenshot_args save_links_args
        cong: option.case_cong prod.case_cong)

lemma collected_strings:
  "map js_string_val (filter keep_href vs) = nonempty_string_hrefs vs"
proof (induction vs)
  case Nil
  then show ?case by (simp add: nonempty_string_hrefs_def)
next
  case (Cons v vs)
  then show ?case
    by (cases v) (simp_all add: nonempty_string_hrefs_def keep_href_def)
qed

lemma nonempty_string_hrefs_nonempty: "l \<in> set (nonempty_string_hrefs vs) \<Longrightarrow> l \<noteq> []"
proof (induction vs)
  case Nil
  then show ?case by (simp add: nonempty_string_hrefs_def)
next
  case (Cons v vs)
  then show ?case
    by (cases v) (auto simp: nonempty_string_hrefs_def split: if_splits)
qed

section \<open>The claims\<close>

text \<open>
  C1. After the line that repeats the code and its text, listNetworkRequests prints the
  category of the code: SUCCESSFUL for a code from 200 to 299, REDIRECTION from 300 to
  399, FORBIDDEN for 403 and NOT FOUND for 404 (neither is reported as a client error),
  CLIENT ERROR for every other code from 400 to 499, and SERVER ERROR from 500 on.
\<close>

theorem listNetworkRequests_categories:
  fixes code :: int64
  shows
  "(200 \<le> sint code \<and> sint code < 300 \<longrightarrow>
      listNetworkRequests code text =
        [Stdout (''Request network: '' @ show_int (sint code) @ '' ('' @ text @ '')\<newline>''),
         Stdout ''Request SUCCESSFUL: Site is accessible.\<newline>'']) \<and>
   (300 \<le> sint code \<and> sint code < 400 \<longrightarrow>
      listNetworkRequests code text =
        [Stdout (''Request network: '' @ show_int (sint code) @ '' ('' @ text @ '')\<newline>''),
         Stdout (''Request REDIRECTION ('' @ show_int (sint code) @
              ''): Site is redirecting to another address.\<newline>'')]) \<and>
   (sint code = 403 \<longrightarrow>
      listNetworkRequests code text =
        [Stdout (''Request network: '' @ show_int (sint code) @ '' ('' @ text @ '')\<newline>''),
         Log ''Request FORBIDDEN (403): Access denied (WAF or Bot Protection).\<newline>'']) \<and>
   (sint code = 404 \<longrightarrow>
      listNetworkRequests code text =
        [Stdout (''Request network: '' @ show_int (sint code) @ '' ('' @ text @ '')\<newline>''),
         Log ''Request NOT FOUND (404): Page does not exist.\<newline>'']) \<and>
   (400 \<le> sint code \<and> sint code < 500 \<and> sint code \<noteq> 403 \<and> sint code \<noteq> 404 \<longrightarrow>
      listNetworkRequests code text =
        [Stdout (''Request network: '' @ show_int (sint code) @ '' ('' @ text @ '')\<newline>''),
         Log (''Request CLIENT ERROR ('' @ show_int (sint code) @ ''): '' @ text @ ''\<newline>'')]) \<and>
   (500 \<le> sint code \<longrightarrow>
      listNetworkRequests code text =
        [Stdout (''Request network: '' @ show_int (sint code) @ '' ('' @ text @ '')\<newline>''),
         Log (''Request SERVER ERROR ('' @ show_int (sint code) @
              ''): Target site is down or faulty.\<newline>'')])"
  by (simp add: listNetworkRequests_def word_sle_eq word_sless_alt
        sint_403 [symmetric] sint_404 [symmetric] sint_zero [symmetric])

theorem listNetworkRequests_categories_witness:
  "listNetworkRequests 204 ''No Content'' =
     [Stdout ''Request network: 204 (No Content)\<newline>'',
      Stdout ''Request SUCCESSFUL: Site is accessible.\<newline>''] \<and>
   listNetworkRequests 301 ''Moved Permanently'' =
     [Stdout ''Request network: 301 (Moved Permanently)\<newline>'',
      Stdout ''Request REDIRECTION (301): Site is redirecting to another address.\<newline>''] \<and>
   listNetworkRequests 403 ''Forbidden'' =
     [Stdout ''Request network: 403 (Forbidden)\<newline>'',
      Log ''Request FORBIDDEN (403): Access denied (WAF or Bot Protection).\<newline>''] \<and>
   listNetworkRequests 404 ''Not Found'' =
     [Stdout ''Request network: 404 (Not Found)\<newline>'',
      Log ''Request NOT FOUND (404): Page does not exist.\<newline>''] \<and>
   listNetworkRequests 418 ''I am a teapot'' =
     [Stdout ''Request network: 418 (I am a teapot)\<newline>'',
      Log ''Request CLIENT ERROR (418): I am a teapot\<newline>''] \<and>
   listNetworkRequests 503 ''Service Unavailable'' =
     [Stdout ''Request network: 503 (Service Unavailable)\<newline>'',
      Log ''Request SERVER ERROR (503): Target site is down or faulty.\<newline>'']"
  using listNetworkRequests_categories [of 204 "''No Content''"]
    listNetworkRequests_categories [of 301 "''Moved Permanently''"]
    listNetworkRequests_categories [of 403 "''Forbidden''"]
    listNetworkRequests_categories [of 404 "''Not Found''"]
    listNetworkRequests_categories [of 418 "''I am a teapot''"]
    listNetworkRequests_categories [of 503 "''Service Unavailable''"]
  by (simp add: show_int_def show_nat.simps)

text \<open>
  C2. In a run that reaches the browser, when both runs of Navigate succeed the program
  does not end in log.Fatal, makes each of the three queries once and in order whatever
  the others return, logs the failure of each query that fails, and calls WriteFile for
  exactly the queries that succeeded. When a run of Navigate fails the program ends in
  log.Fatal without a query and without a call of WriteFile.
\<close>

theorem extraction_best_effort:
  assumes "reaches_browser e"
  shows
    "(navigation_ok e \<longrightarrow>
        \<not> aborted (main e) \<and>
        filter is_query (main e) = [OuterHTML, FullScreenshot, Evaluate] \<and>
        (\<forall>er. snd (chromedp_OuterHTML e) = Some er \<longrightarrow>
           Log (''Failed to retrieve content:  '' @ er @ ''\<newline>'') \<in> set (main e)) \<and>
        (\<forall>er. snd (chromedp_FullScreenshot e) = Some er \<longrightarrow>
           Log (''Image fault:  '' @ er @ ''\<newline>'') \<in> set (main e)) \<and>
        (\<forall>er. snd (snd (extractLinks e)) = Some er \<longrightarrow>
           Log (''Failed to extract links:  '' @ er @ ''\<newline>'') \<in> set (main e)) \<and>
        map fst (writes (main e)) =
          (if snd (chromedp_OuterHTML e) = None then [run_folder e @ ''/page.html''] else []) @
          (if snd (chromedp_FullScreenshot e) = None then [run_folder e @ ''/screenshot.png''] else []) @
          (if snd (snd (extractLinks e)) = None then [run_folder e @ ''/links.txt''] else [])) \<and>
     (\<not> navigation_ok e \<longrightarrow>
        aborted (main e) \<and> filter is_query (main e) = [] \<and> writes (main e) = [])"
proof (cases "navigation_ok e")
  case True
  from main_ok [OF assms True] obtain pre where
    m: "main e = pre @ extraction e (run_folder e)" and q: "filter is_query pre = []"
    by blast
  have 1: "\<not> aborted (main e)"
    using extraction_last [of e "run_folder e"] by (simp add: m aborted_def)
  have 2: "filter is_query (main e) = [OuterHTML, FullScreenshot, Evaluate]"
    by (simp add: m q queries_extraction)
  have 3: "Log (''Failed to retrieve content:  '' @ er @ ''\<newline>'') \<in> set (main e)"
    if "snd (chromedp_OuterHTML e) = Some er" for er
    using log_save_html [OF that, of "run_folder e"] by (simp add: m extraction_def)
  have 4: "Log (''Image fault:  '' @ er @ ''\<newline>'') \<in> set (main e)"
    if "snd (chromedp_FullScreenshot e) = Some er" for er
    using log_save_screenshot [OF that, of "run_folder e"] by (simp add: m extraction_def)
  have 5: "Log (''Failed to extract links:  '' @ er @ ''\<newline>'') \<in> set (main e)"
    if "snd (snd (extractLinks e)) = Some er" for er
    using log_save_links [OF that, of "run_folder e"] by (simp add: m extraction_def)
  have 6: "map fst (writes (main e)) =
          (if snd (chromedp_OuterHTML e) = None then [run_folder e @ ''/page.html''] else []) @
          (if snd (chromedp_FullScreenshot e) = None then [run_folder e @ ''/screenshot.png''] else []) @
          (if snd (snd (extractLinks e)) = None then [run_folder e @ ''/links.txt''] else [])"
    using assms True run_folder_nonempty [OF assms]
    by (simp add: paths_main paths_extraction filepath_Join_file)
  from True 1 2 3 4 5 6 show ?thesis by blast
next
  case False
  have "writes (main e) = []"
    using False by (simp add: writes_main)
  with main_failed [OF assms False] False show ?thesis by blast
qed

theorem extraction_best_effort_witness:
  "reaches_browser env_html_fails \<and> navigation_ok env_html_fails \<and>
   \<not> aborted (main env_html_fails) \<and>
   filter is_query (main env_html_fails) = [OuterHTML, FullScreenshot, Evaluate] \<and>
   Log ''Failed to retrieve content:  context deadline exceeded\<newline>'' \<in> set (main env_html_fails) \<and>
   Log ''Failed to extract links:  error extracting links: exception in script\<newline>''
     \<in> set (main env_html_fails) \<and>
   map fst (writes (main env_html_fails)) =
     [''scraped_data/2024-01-02_03-04-05_example.com/screenshot.png''] \<and>
   reaches_browser env_nav_fails \<and> \<not> navigation_ok env_nav_fails \<and>
   aborted (main env_nav_fails) \<and> filter is_query (main env_nav_fails) = [] \<and>
   writes (main env_nav_fails) = []"
proof -
  have r1: "reaches_browser env_html_fails" by code_simp
  have n1: "navigation_ok env_html_fails" by code_simp
  have h1: "snd (chromedp_OuterHTML env_html_fails) = Some ''context deadline exceeded''"
    by code_simp
  have s1: "snd (chromedp_FullScreenshot env_html_fails) = None" by code_simp
  have l1: "snd (snd (extractLinks env_html_fails)) =
      Some ''error extracting links: exception in script''"
    by code_simp
  have f1: "run_folder env_html_fails = ''scraped_data/2024-01-02_03-04-05_example.com''"
    by code_simp
  have r2: "reaches_browser env_nav_fails" by code_simp
  have n2: "\<not> navigation_ok env_nav_fails" by code_simp
  show ?thesis
    using extraction_best_effort [OF r1] extraction_best_effort [OF r2] r1 n1 h1 s1 l1 f1 r2 n2 by simp
qed

text \<open>
  C3, as amended. In a run in which both runs of Navigate and the three queries
  succeed, the program makes one folder, \<open>scraped_data/<timestamp>_<hostname>\<close>, and
  calls WriteFile three times, for page.html, screenshot.png and links.txt in that
  folder and with the extracted contents. A file is written exactly when its call
  returns no error.
\<close>

theorem output_folder_and_files:
  assumes "reaches_browser e" and "navigation_ok e" and "extractions_ok e"
  shows
    "mkdirs (main e) = [run_folder e] \<and>
     (\<exists>u. url_Parse e (rawURL_of e) = Inr u \<and>
          run_folder e = ''scraped_data/'' @ time_Now_Format e @ ''_'' @ Hostname u) \<and>
     writes (main e) =
       [(run_folder e @ ''/page.html'', fst (chromedp_OuterHTML e)),
        (run_folder e @ ''/screenshot.png'', fst (chromedp_FullScreenshot e)),
        (run_folder e @ ''/links.txt'',
         strings_Join (slice_elems (fst (snd (extractLinks e)))) ''\<newline>'')] \<and>
     files_written (main e) = filter (\<lambda>(p, c). os_WriteFile e p c = None) (writes (main e))"
proof -
  have 1: "mkdirs (main e) = [run_folder e]"
    by (rule mkdirs_main_ok [OF assms(1,2)])
  have 2: "\<exists>u. url_Parse e (rawURL_of e) = Inr u \<and>
          run_folder e = ''scraped_data/'' @ time_Now_Format e @ ''_'' @ Hostname u"
    using assms(1)
    by (auto simp: reaches_browser_def run_folder_def folderPath_of_eq split: sum.splits)
  have 3: "writes (main e) =
       [(run_folder e @ ''/page.html'', fst (chromedp_OuterHTML e)),
        (run_folder e @ ''/screenshot.png'', fst (chromedp_FullScreenshot e)),
        (run_folder e @ ''/links.txt'',
         strings_Join (slice_elems (fst (snd (extractLinks e)))) ''\<newline>'')]"
    using assms run_folder_nonempty [OF assms(1)]
    by (simp add: extractions_ok_def writes_main writes_extraction writes_save_html
          writes_save_screenshot writes_save_links filepath_Join_file)
  have 4: "files_written (main e) =
      filter (\<lambda>(p, c). os_WriteFile e p c = None) (writes (main e))"
    by (rule files_written_writes) (rule results_main)
  from 1 2 3 4 show ?thesis by blast
qed

theorem output_folder_and_files_witness:
  "reaches_browser env_ok \<and> navigation_ok env_ok \<and> extractions_ok env_ok \<and>
   mkdirs (main env_ok) = [''scraped_data/2024-01-02_03-04-05_example.com''] \<and>
   files_written (main env_ok) =
     [(''scraped_data/2024-01-02_03-04-05_example.com/page.html'', ''<html></html>''),
      (''scraped_data/2024-01-02_03-04-05_example.com/screenshot.png'', ''PNG''),
      (''scraped_data/2024-01-02_03-04-05_example.com/links.txt'',
       ''https://a.example/\<newline>https://b.example/x'')]"
proof -
  have r: "reaches_browser env_ok" by code_simp
  have n: "navigation_ok env_ok" by code_simp
  have x: "extractions_ok env_ok" by code_simp
  have f: "run_folder env_ok = ''scraped_data/2024-01-02_03-04-05_example.com''"
    by code_simp
  have h: "chromedp_OuterHTML env_ok = (''<html></html>'', None)" by code_simp
  have s: "chromedp_FullScreenshot env_ok = (''PNG'', None)" by code_simp
  have l: "strings_Join (slice_elems (fst (snd (extractLinks env_ok)))) ''\<newline>'' =
      ''https://a.example/\<newline>https://b.example/x''"
    by code_simp
  have w: "os_WriteFile env_ok = (\<lambda>p c. None)"
    by (simp add: env_ok_def)
  show ?thesis
    using output_folder_and_files [OF r n x] r n x f h s l w by simp
qed

text \<open>
  C3 as stated fails where a write fails: with the disk full at page.html, navigation
  and the three queries succeed and only two of the three files are written.
\<close>

theorem failed_write_leaves_file_out:
  "reaches_browser env_disk_full \<and> navigation_ok env_disk_full \<and>
   extractions_ok env_disk_full \<and>
   map fst (files_written (main env_disk_full)) =
     [''scraped_data/2024-01-02_03-04-05_example.com/screenshot.png'',
      ''scraped_data/2024-01-02_03-04-05_example.com/links.txt'']"
  by code_simp

text \<open>
  C4. extractLinks evaluates one script. It returns an error exactly when the evaluation
  fails or the string the script returned fails to decode; with an error the list is
  nil, and without one the list is what json.Unmarshal decoded from the value of the
  script.
\<close>

theorem extractLinks_result:
  "fst (extractLinks e) = [Evaluate] \<and>
   (snd (snd (extractLinks e)) \<noteq> None \<longleftrightarrow>
      chromedp_Evaluate_err e \<noteq> None \<or>
      (chromedp_Evaluate_err e = None \<and> snd (json_Unmarshal e (javascript e)) \<noteq> None)) \<and>
   (snd (snd (extractLinks e)) \<noteq> None \<longrightarrow> fst (snd (extractLinks e)) = None) \<and>
   (snd (snd (extractLinks e)) = None \<longrightarrow>
      fst (snd (extractLinks e)) = fst (json_Unmarshal e (javascript e)))"
  by (cases "json_Unmarshal e (javascript e)")
     (auto simp: extractLinks_def Let_def split: option.splits)

theorem extractLinks_result_witness:
  "extractLinks env_ok = ([Evaluate], Some [''https://a.example/'', ''https://b.example/x''], None) \<and>
   chromedp_Evaluate_err env_ok = None \<and>
   json_Unmarshal env_ok (javascript env_ok) =
     (Some [''https://a.example/'', ''https://b.example/x''], None) \<and>
   chromedp_Evaluate_err env_bad_json = None \<and>
   snd (json_Unmarshal env_bad_json (javascript env_bad_json)) = Some ''invalid character'' \<and>
   snd (extractLinks env_bad_json) = (None, Some ''error unmarshaling JSON: invalid character'') \<and>
   chromedp_Evaluate_err env_html_fails = Some ''exception in script'' \<and>
   snd (extractLinks env_html_fails) = (None, Some ''error extracting links: exception in script'')"
proof -
  have 1: "extractLinks env_ok =
      ([Evaluate], Some [''https://a.example/'', ''https://b.example/x''], None)"
    by code_simp
  have 2: "chromedp_Evaluate_err env_ok = None" by code_simp
  have 3: "json_Unmarshal env_ok (javascript env_ok) =
     (Some [''https://a.example/'', ''https://b.example/x''], None)"
    by code_simp
  have 4: "chromedp_Evaluate_err env_bad_json = None" by code_simp
  have 5: "snd (json_Unmarshal env_bad_json (javascript env_bad_json)) = Some ''invalid character''"
    by code_simp
  have 6: "snd (snd (extractLinks env_bad_json)) = Some ''error unmarshaling JSON: invalid character''"
    by code_simp
  have 7: "chromedp_Evaluate_err env_html_fails = Some ''exception in script''" by code_simp
  have 8: "snd (snd (extractLinks env_html_fails)) =
      Some ''error extracting links: exception in script''"
    by code_simp
  from extractLinks_result [of env_bad_json] 6 have 9: "fst (snd (extractLinks env_bad_json)) = None"
    by simp
  from extractLinks_result [of env_html_fails] 8 have 10: "fst (snd (extractLinks env_html_fails)) = None"
    by simp
  show ?thesis
    using 1 2 3 4 5 6 7 8 9 10 by (simp add: prod_eq_iff)
qed

text \<open>
  C5. In a run that reaches the extraction, when extractLinks returns no error the only
  content written to links.txt is the links in the order extractLinks returns them,
  with one newline between each two neighbours.
\<close>

theorem links_file_content:
  assumes "reaches_browser e" and "navigation_ok e" and "snd (snd (extractLinks e)) = None"
  shows "map snd (filter (\<lambda>(p, c). p = run_folder e @ ''/links.txt'') (writes (main e))) =
     [joined_by_newlines (slice_elems (fst (snd (extractLinks e))))]"
  using assms run_folder_nonempty [OF assms(1)]
  by (simp add: writes_main writes_extraction writes_save_html writes_save_screenshot
        writes_save_links filepath_Join_file strings_Join_newline)

theorem links_file_content_witness:
  "reaches_browser env_ok \<and> navigation_ok env_ok \<and> snd (snd (extractLinks env_ok)) = None \<and>
   fst (snd (extractLinks env_ok)) = Some [''https://a.example/'', ''https://b.example/x''] \<and>
   map snd (filter (\<lambda>(p, c). p = run_folder env_ok @ ''/links.txt'') (writes (main env_ok))) =
     [''https://a.example/\<newline>https://b.example/x'']"
proof -
  have r: "reaches_browser env_ok" by code_simp
  have n: "navigation_ok env_ok" by code_simp
  have x: "extractLinks env_ok =
      ([Evaluate], Some [''https://a.example/'', ''https://b.example/x''], None)"
    by code_simp
  then have l: "snd (snd (extractLinks env_ok)) = None" by simp
  show ?thesis
    using links_file_content [OF r n l] r n x by (simp add: joined_by_newlines_def slice_elems_def)
qed

text \<open>
  C6. The steps of a run in which everything succeeds, in order: Navigate runs twice
  (lines 94 and 102 of main.go), every other step once.
\<close>

theorem navigation_runs_twice:
  "steps (main env_ok) =
     [MkdirAll ''scraped_data/2024-01-02_03-04-05_example.com'' None,
      NewContext,
      Navigate ''https://example.com/'',
      Navigate ''https://example.com/'',
      OuterHTML,
      WriteFile ''scraped_data/2024-01-02_03-04-05_example.com/page.html'' ''<html></html>'' None,
      FullScreenshot,
      WriteFile ''scraped_data/2024-01-02_03-04-05_example.com/screenshot.png'' ''PNG'' None,
      Evaluate,
      WriteFile ''scraped_data/2024-01-02_03-04-05_example.com/links.txt''
        ''https://a.example/\<newline>https://b.example/x'' None]"
  by code_simp

text \<open>
  C7. In every run each output file is written at most once: no two calls of WriteFile
  of a run name the same path, whatever the environment answers.
\<close>

theorem files_written_once: "distinct (map fst (writes (main e)))"
proof (cases "reaches_browser e \<and> navigation_ok e")
  case True
  then have "map fst (writes (main e)) = map fst (writes (extraction e (run_folder e)))"
    by (simp add: paths_main)
  then show ?thesis
    unfolding paths_extraction
    using distinct_kept [OF output_paths_distinct] by simp
next
  case False
  then have "map fst (writes (main e)) = []"
    unfolding paths_main by (simp only: if_False)
  then show ?thesis by simp
qed

theorem files_written_once_witness: "distinct (map fst (writes (main env_ok))) \<and> length (writes (main env_ok)) = 3"
proof -
  have "length (writes (main env_ok)) = 3"
    by code_simp
  then show ?thesis
    using files_written_once [of env_ok] by simp
qed

text \<open>
  C8, as amended. Without an argument the run is the one log.Fatal; when the first
  argument does not parse the run is the line printed for it and log.Fatal. In both
  cases no folder is made, no file is written and no other step is taken. The program
  reads its first argument only: arguments after it change nothing.
\<close>

theorem argument_checks:
  "(length (os_Args e) < 2 \<longrightarrow>
      main e = [Fatal ''Please provide a URL as a command-line argument.'']) \<and>
   (\<forall>er. 2 \<le> length (os_Args e) \<and> url_Parse e (os_Args e ! 1) = Inl er \<longrightarrow>
      main e = [Stdout (''Navigating to URL: '' @ os_Args e ! 1 @ ''\<newline>''),
                Fatal (''Invalid URL: '' @ er)]) \<and>
   (length (os_Args e) < 2 \<or> (\<exists>er. url_Parse e (os_Args e ! 1) = Inl er) \<longrightarrow>
      aborted (main e) \<and> steps (main e) = [] \<and> mkdirs (main e) = [] \<and> writes (main e) = []) \<and>
   (2 \<le> length (os_Args e) \<longrightarrow> main e = main (e\<lparr>os_Args := take 2 (os_Args e)\<rparr>))"
proof -
  have 1: "main e = [Fatal ''Please provide a URL as a command-line argument.'']"
    if "length (os_Args e) < 2"
    using that by (simp add: main_def)
  have 2: "main e = [Stdout (''Navigating to URL: '' @ os_Args e ! 1 @ ''\<newline>''),
                Fatal (''Invalid URL: '' @ er)]"
    if "2 \<le> length (os_Args e)" and "url_Parse e (os_Args e ! 1) = Inl er" for er
    using that by (simp add: main_def Let_def)
  have 3: "aborted (main e) \<and> steps (main e) = [] \<and> mkdirs (main e) = [] \<and> writes (main e) = []"
    if "length (os_Args e) < 2 \<or> (\<exists>er. url_Parse e (os_Args e ! 1) = Inl er)"
  proof (cases "length (os_Args e) < 2")
    case True
    then show ?thesis
      by (simp add: 1 aborted_def steps_def mkdirs_def writes_def)
  next
    case False
    with that obtain er where "url_Parse e (os_Args e ! 1) = Inl er" by blast
    with False have "main e = [Stdout (''Navigating to URL: '' @ os_Args e ! 1 @ ''\<newline>''),
                Fatal (''Invalid URL: '' @ er)]"
      by (intro 2) simp_all
    then show ?thesis
      by (simp add: aborted_def steps_def mkdirs_def writes_def)
  qed
  have 4: "main e = main (e\<lparr>os_Args := take 2 (os_Args e)\<rparr>)"
    if "2 \<le> length (os_Args e)"
  proof -
    from that show ?thesis
      by (simp add: main_def Let_def browse_args cong: sum.case_cong option.case_cong)
  qed
  from 1 2 3 4 show ?thesis by blast
qed

theorem argument_checks_witness:
  "length (os_Args env_no_arg) < 2 \<and>
   main env_no_arg = [Fatal ''Please provide a URL as a command-line argument.''] \<and>
   2 \<le> length (os_Args env_bad_url) \<and>
   url_Parse env_bad_url (os_Args env_bad_url ! 1) = Inl ''missing ] in host'' \<and>
   main env_bad_url =
     [Stdout ''Navigating to URL: http://[::1\<newline>'', Fatal ''Invalid URL: missing ] in host''] \<and>
   aborted (main env_bad_url) \<and> mkdirs (main env_bad_url) = [] \<and> writes (main env_bad_url) = [] \<and>
   2 \<le> length (os_Args env_extra_arg) \<and>
   main env_extra_arg = main (env_extra_arg\<lparr>os_Args := take 2 (os_Args env_extra_arg)\<rparr>)"
proof -
  have 1: "length (os_Args env_no_arg) < 2" by code_simp
  have 2: "2 \<le> length (os_Args env_bad_url)" by code_simp
  have 3: "url_Parse env_bad_url (os_Args env_bad_url ! 1) = Inl ''missing ] in host''"
    by code_simp
  have 4: "os_Args env_bad_url ! 1 = ''http://[::1''" by code_simp
  have 5: "2 \<le> length (os_Args env_extra_arg)" by code_simp
  show ?thesis
    using argument_checks [of env_no_arg] argument_checks [of env_bad_url] argument_checks [of env_extra_arg] 1 2 3 4 5
    by auto
qed

text \<open>
  C8 as stated fails on "exactly one": a run with a second argument is not refused, it
  makes the folder and writes the three files.
\<close>

theorem extra_argument_accepted:
  "length (os_Args env_extra_arg) = 3 \<and>
   \<not> aborted (main env_extra_arg) \<and>
   mkdirs (main env_extra_arg) = [''scraped_data/2024-01-02_03-04-05_example.com''] \<and>
   map fst (files_written (main env_extra_arg)) =
     [''scraped_data/2024-01-02_03-04-05_example.com/page.html'',
      ''scraped_data/2024-01-02_03-04-05_example.com/screenshot.png'',
      ''scraped_data/2024-01-02_03-04-05_example.com/links.txt'']"
  by code_simp

text \<open>
  C9. For the status code zero listNetworkRequests prints and logs nothing; the recorded
  code is zero, with the same result, whenever the listener saw no response of the
  main document.
\<close>

theorem no_status_no_output:
  "listNetworkRequests 0 text = [] \<and>
   (list_all (\<lambda>ev. \<not> is_document ev) events \<longrightarrow>
      listNetworkRequests (fst (foldl listener (0, []) events))
        (snd (foldl listener (0, []) events)) = [])"
  by (simp add: listener_no_document listNetworkRequests_def)

theorem no_status_no_output_witness:
  "listNetworkRequests 0 ''OK'' = [] \<and>
   list_all (\<lambda>ev. \<not> is_document ev)
     [EventOther, EventResponseReceived ResourceTypeImage 200 ''OK''] \<and>
   listNetworkRequests
     (fst (foldl listener (0, []) [EventOther, EventResponseReceived ResourceTypeImage 200 ''OK'']))
     (snd (foldl listener (0, []) [EventOther, EventResponseReceived ResourceTypeImage 200 ''OK''])) = []"
  using no_status_no_output [of "''OK''" "[EventOther, EventResponseReceived ResourceTypeImage 200 ''OK'']"]
  by simp

text \<open>
  C10. When the script is evaluated and json.Unmarshal decodes the array the script
  encoded back to its strings, extractLinks returns the values of href (of baseVal for
  an object) that are strings and not empty, in document order; no string of the list
  is empty.
\<close>

theorem extracted_links_nonempty:
  assumes "chromedp_Evaluate_err e = None"
    and "json_Unmarshal e (JSON_stringify e (collected_hrefs (page_anchors e))) =
           (Some (map js_string_val (collected_hrefs (page_anchors e))), None)"
  shows "extractLinks e =
           ([Evaluate], Some (nonempty_string_hrefs (map href_of (page_anchors e))), None) \<and>
         (\<forall>l \<in> set (nonempty_string_hrefs (map href_of (page_anchors e))). l \<noteq> [])"
proof -
  have "map js_string_val (collected_hrefs (page_anchors e)) =
      nonempty_string_hrefs (map href_of (page_anchors e))"
    by (simp add: collected_hrefs_def collected_strings)
  with assms have "extractLinks e =
      ([Evaluate], Some (nonempty_string_hrefs (map href_of (page_anchors e))), None)"
    by (simp add: extractLinks_def javascript_def)
  then show ?thesis
    using nonempty_string_hrefs_nonempty by blast
qed

theorem extracted_links_nonempty_witness:
  "chromedp_Evaluate_err env_ok = None \<and>
   json_Unmarshal env_ok (JSON_stringify env_ok (collected_hrefs (page_anchors env_ok))) =
     (Some (map js_string_val (collected_hrefs (page_anchors env_ok))), None) \<and>
   map href_of (page_anchors env_ok) =
     [JSString ''https://a.example/'', JSString [], JSString ''https://b.example/x'',
      JSUndefined, JSString [], JSNull] \<and>
   extractLinks env_ok =
     ([Evaluate], Some [''https://a.example/'', ''https://b.example/x''], None)"
proof -
  have 1: "chromedp_Evaluate_err env_ok = None" by code_simp
  have 2: "json_Unmarshal env_ok (JSON_stringify env_ok (collected_hrefs (page_anchors env_ok))) =
     (Some (map js_string_val (collected_hrefs (page_anchors env_ok))), None)"
    by code_simp
  have 3: "map href_of (page_anchors env_ok) =
     [JSString ''https://a.example/'', JSString [], JSString ''https://b.example/x'',
      JSUndefined, JSString [], JSNull]"
    by code_simp
  have 4: "nonempty_string_hrefs
     [JSString ''https://a.example/'', JSString [], JSString ''https://b.example/x'',
      JSUndefined, JSString [], JSNull] = [''https://a.example/'', ''https://b.example/x'']"
    by code_simp
  show ?thesis
    using extracted_links_nonempty [OF 1 2] 1 2 3 4 by simp
qed

end
